theory Spec2Isabelle
  imports Main
begin

section \<open>JavaScript values used by the server\<close>

text \<open>
  A JavaScript string is a sequence of UTF-16 code units; the model keeps the code units
  as natural numbers, so that the quote characters, the white space that \<open>trim\<close> removes and
  the Devanagari templates are exactly the ones of the source. \<open>ascii\<close> writes an ASCII
  literal of the source as such a sequence.
\<close>

type_synonym js_string = "nat list"

definition ascii :: "string \<Rightarrow> js_string" where
  "ascii s = map of_char s"

text \<open>
  A value read from a request body, a response body or the environment may be absent
  (\<open>undefined\<close>): \<open>None\<close>. The source tests such values for truthiness (\<open>!tweet\<close>,
  \<open>prevTweetId ? ... : ...\<close>, \<open>a || b\<close>); an absent value and the empty string are falsy,
  every other string is truthy.
\<close>

definition truthy :: "js_string option \<Rightarrow> bool" where
  "truthy v = (case v of None \<Rightarrow> False | Some s \<Rightarrow> s \<noteq> [])"


fun dec :: "nat \<Rightarrow> js_string" where
  "dec n = (if n < 10 then [48 + n] else dec (n div 10) @ [48 + n mod 10])"

definition show_int :: "int \<Rightarrow> js_string" where
  "show_int i = (if i < 0 then 45 # dec (nat (- i)) else dec (nat i))"

section \<open>Rate limiter\<close>

text \<open>
  The module-level variables \<open>tweetCount\<close> and \<open>lastResetTime\<close> are the limiter's state.
  Times are milliseconds since the epoch, as \<open>Date.now()\<close> returns them (integers far
  below \<open>2^53\<close>, so JavaScript's numbers compute on them exactly).
\<close>

record limiter =
  tweetCount :: int
  lastResetTime :: int

definition TWEET_LIMIT :: int where
  "TWEET_LIMIT = 17"

definition RESET_PERIOD :: int where
  "RESET_PERIOD = 24 * 60 * 60 * 1000"

record rate_limit =
  allowed :: bool
  remaining :: int

text \<open>
  \<open>checkRateLimit\<close> reads the clock twice: \<open>t1\<close> is the reading compared with the window,
  \<open>t2\<close> the reading stored as the new window start (the source calls \<open>Date.now()\<close> for
  each). It returns the report and the limiter's state after the call.
\<close>

definition checkRateLimit :: "int \<Rightarrow> int \<Rightarrow> limiter \<Rightarrow> rate_limit \<times> limiter" where
  "checkRateLimit t1 t2 st =
     (if t1 - lastResetTime st > RESET_PERIOD
      then (\<lparr>allowed = True, remaining = TWEET_LIMIT\<rparr>,
            st\<lparr>tweetCount := 0, lastResetTime := t2\<rparr>)
      else if tweetCount st \<ge> TWEET_LIMIT
      then (\<lparr>allowed = False, remaining = 0\<rparr>, st)
      else (\<lparr>allowed = True, remaining = TWEET_LIMIT - tweetCount st\<rparr>, st))"

text \<open>The statement \<open>tweetCount++\<close>.\<close>

definition tweetCount_incr :: "limiter \<Rightarrow> limiter" where
  "tweetCount_incr st = st\<lparr>tweetCount := tweetCount st + 1\<rparr>"

text \<open>The limiter when the process starts at time \<open>t0\<close>.\<close>

definition limiter_init :: "int \<Rightarrow> limiter" where
  "limiter_init t0 = \<lparr>tweetCount = 0, lastResetTime = t0\<rparr>"

section \<open>Sanitizing generated text\<close>

text \<open>
  \<open>tweet.replace(/^["']|["']$/g, '')\<close>: the global replacement scans the positions of
  the string from left to right. At position \<open>i\<close> the pattern matches one code unit, a
  double or single quote, when the position is the start of the input (first alternative)
  or the last position of the input (second alternative; without the \<open>m\<close> flag \<open>$\<close> is
  the end of the input only). Each match is replaced by the empty string.
  \<open>replace_scan i n s\<close> scans the rest \<open>s\<close> of an input of length \<open>n\<close> from position \<open>i\<close>.
\<close>

definition is_quote :: "nat \<Rightarrow> bool" where
  "is_quote c = (c = 34 \<or> c = 39)"

fun replace_scan :: "nat \<Rightarrow> nat \<Rightarrow> js_string \<Rightarrow> js_string" where
  "replace_scan i n [] = []"
| "replace_scan i n (c # cs) =
     (if is_quote c \<and> (i = 0 \<or> Suc i = n) then replace_scan (Suc i) n cs
      else c # replace_scan (Suc i) n cs)"

definition replace_quotes :: "js_string \<Rightarrow> js_string" where
  "replace_quotes s = replace_scan 0 (length s) s"

text \<open>
  \<open>String.prototype.trim\<close> removes white space and line terminators from both ends:
  TAB, LF, VT, FF, CR, SPACE, NBSP, the space separators U+1680, U+2000 to U+200A, U+202F,
  U+205F and U+3000, the line and paragraph separators U+2028 and U+2029, and U+FEFF.
\<close>

definition is_white_space :: "nat \<Rightarrow> bool" where
  "is_white_space c =
     (c \<in> set [9, 10, 11, 12, 13, 32, 160, 5760, 8192, 8193, 8194, 8195, 8196, 8197, 8198,
                8199, 8200, 8201, 8202, 8232, 8233, 8239, 8287, 12288, 65279])"

definition trim :: "js_string \<Rightarrow> js_string" where
  "trim s = rev (dropWhile is_white_space (rev (dropWhile is_white_space s)))"

text \<open>The expression bound to \<open>cleanTweet\<close> in both generation handlers.\<close>

definition cleanTweet :: "js_string \<Rightarrow> js_string" where
  "cleanTweet tweet = trim (replace_quotes tweet)"

section \<open>Prompt builders\<close>

text \<open>
  Both builders make an object \<open>prompts\<close> with the own properties \<open>english\<close>, \<open>hindi\<close> and
  \<open>hinglish\<close> and return \<open>prompts[language] || prompts.english\<close>. A property read also
  finds the members every object inherits from \<open>Object.prototype\<close>; they are functions or
  objects, hence truthy, and are returned in place of a template.
\<close>

datatype prompt_value = Template js_string | Inherited js_string

definition object_prototype_keys :: "js_string list" where
  "object_prototype_keys =
     map ascii [''constructor'', ''__proto__'', ''hasOwnProperty'', ''isPrototypeOf'',
       ''propertyIsEnumerable'', ''toLocaleString'', ''toString'', ''valueOf'',
       ''__defineGetter__'', ''__defineSetter__'', ''__lookupGetter__'', ''__lookupSetter__'']"

text \<open>
  \<open>pick_prompt prompts english language\<close>: the parameter \<open>language\<close> defaults to
  \<open>'english'\<close> when it is absent; \<open>english\<close> is the value of \<open>prompts.english\<close>.
\<close>

definition pick_prompt ::
  "(js_string \<times> js_string) list \<Rightarrow> js_string \<Rightarrow> js_string option \<Rightarrow> prompt_value" where
  "pick_prompt prompts english language =
     (let key = (case language of None \<Rightarrow> ascii ''english'' | Some l \<Rightarrow> l) in
      case map_of prompts key of
        Some t \<Rightarrow> if t \<noteq> [] then Template t else Template english
      | None \<Rightarrow> if key \<in> set object_prototype_keys then Inherited key else Template english)"

text \<open>The literal parts of the templates of \<open>getPromptByLanguage\<close>, around \<open>${topic}\<close>.\<close>

definition tweet_english_1 :: js_string where
  "tweet_english_1 =
     ascii ''Write a short, engaging tweet about: ''"

definition tweet_english_2 :: js_string where
  "tweet_english_2 =
     ascii ''.'' @ [10] @
     ascii ''Keep it under 280 characters. Make it sound natural and personal, like something someone would actually post.'' @
     [10] @
     ascii ''Try to include a relatable insight, surprising idea, clever twist, or emotional hook.'' @
     [10] @ ascii ''Avoid hashtags unless explicitly requested.''"

definition tweet_hindi_1 :: js_string where
  "tweet_hindi_1 =
     [32, 2325, 2375, 32, 2348, 2366, 2352, 2375, 32, 2350, 2375, 2306, 32, 2319, 2325, 32,
      2331, 2379, 2335, 2366, 32, 2324, 2352, 32, 2310, 2325, 2352, 2381, 2359, 2325, 32,
      2335, 2381, 2357, 2368, 2335, 32, 2361, 2367, 2306, 2342, 2368, 32, 2350, 2375, 2306,
      32, 2354, 2367, 2326, 2375, 2306, 2404, 10, 2311, 2360, 2375, 32, 50, 56, 48, 32,
      2309, 2325, 2381, 2359, 2352, 2379, 2306, 32, 2360, 2375, 32, 2325, 2350, 32, 2352,
      2326, 2375, 2306, 2404, 32, 2311, 2360, 2375, 32, 2360, 2381, 2357, 2366, 2349, 2366,
      2357, 2367, 2325, 32, 2324, 2352, 32, 2357, 2381, 2351, 2325, 2381, 2340, 2367, 2327,
      2340, 32, 2348, 2344, 2366, 2319, 2306, 44, 32, 2332, 2376, 2360, 2375, 32, 2325,
      2379, 2312, 32, 2357, 2366, 2360, 2381, 2340, 2357, 32, 2350, 2375, 2306, 32, 2346,
      2379, 2360, 2381, 2335, 32, 2325, 2352, 2375, 2327, 2366, 2404, 10, 2311, 2360, 2350,
      2375, 2306, 32, 2319, 2325, 32, 2360, 2306, 2348, 2306, 2343, 2367, 2340, 32, 2309,
      2306, 2340, 2352, 2381, 2342, 2371, 2359, 2381, 2335, 2367, 44, 32, 2310, 2358, 2381,
      2330, 2352, 2381, 2351, 2332, 2344, 2325, 32, 2357, 2367, 2330, 2366, 2352, 44, 32,
      2330, 2340, 2369, 2352, 32, 2350, 2379, 2337, 2364, 44, 32, 2351, 2366, 32, 2349,
      2366, 2357, 2344, 2366, 2340, 2381, 2350, 2325, 32, 2310, 2325, 2352, 2381, 2359,
      2339, 32, 2358, 2366, 2350, 2367, 2354, 32, 2325, 2352, 2344, 2375, 32, 2325, 2366,
      32, 2346, 2381, 2352, 2351, 2366, 2360, 32, 2325, 2352, 2375, 2306, 2404, 10, 2357,
      2367, 2358, 2375, 2359, 32, 2352, 2370, 2346, 32, 2360, 2375, 32, 2309, 2344, 2369,
      2352, 2379, 2343, 32, 2325, 2367, 2319, 32, 2332, 2366, 2344, 2375, 32, 2346, 2352,
      32, 2361, 2368, 32, 2361, 2376, 2358, 2335, 2376, 2327, 32, 2325, 2366, 32, 2313,
      2346, 2351, 2379, 2327, 32, 2325, 2352, 2375, 2306, 2404]"

definition tweet_hinglish_1 :: js_string where
  "tweet_hinglish_1 =
     ascii '' ke baare mein ek short, engaging tweet Hinglish mein likhiye.'' @ [10] @
     ascii ''280 characters se kam rakhein. Natural aur personal sound karna chahiye, jaisa koi actually post karega.'' @
     [10] @
     ascii ''Try to include relatable insight, surprising idea, clever twist, ya emotional hook.'' @
     [10] @ ascii ''Hashtags avoid karein jab tak specifically requested na ho.''"

definition getPromptByLanguage :: "js_string \<Rightarrow> js_string option \<Rightarrow> prompt_value" where
  "getPromptByLanguage topic language =
     pick_prompt
       [(ascii ''english'', tweet_english_1 @ topic @ tweet_english_2),
        (ascii ''hindi'', topic @ tweet_hindi_1),
        (ascii ''hinglish'', topic @ tweet_hinglish_1)]
       (tweet_english_1 @ topic @ tweet_english_2)
       language"

text \<open>
  The literal parts of the templates of \<open>getThreadPromptByLanguage\<close>, around
  \<open>${partCount}\<close> and \<open>${topic}\<close>.
\<close>

definition thread_english_1 :: js_string where
  "thread_english_1 =
     ascii ''Write part ''"

definition thread_english_2 :: js_string where
  "thread_english_2 =
     ascii '' of a Twitter thread about: ''"

definition thread_english_3 :: js_string where
  "thread_english_3 =
     ascii ''.'' @ [10] @
     ascii ''Keep it under 280 characters. Make it sound natural and conversational, like one part of a cohesive thread.'' @
     [10] @ ascii ''Ensure this part flows well if it'' @ [39] @
     ascii ''s not the first tweet. Create a natural continuation or development of ideas.''"






section \<open>HTTP responses and upstream calls\<close>

text \<open>
  An upstream call made through axios either rejects with an error, whose
  \<open>response?.data\<close> (the upstream body, when there is one) and \<open>message\<close> the handlers
  read, or resolves. The handlers report \<open>err.response?.data || err.message\<close>.
\<close>

record axios_error =
  response_data :: "js_string option"
  message :: js_string

definition error_details :: "axios_error \<Rightarrow> js_string" where
  "error_details err =
     (if truthy (response_data err) then the (response_data err) else message err)"

record thread_result =
  tr_tweetId :: "js_string option"
  tr_tweetUrl :: "js_string option"
  tr_text :: js_string

text \<open>
  The responses the routes send, by status and body. \<open>resetTime\<close> is kept as the time
  value in milliseconds of the \<open>Date\<close> the source formats with \<open>toISOString\<close>.
\<close>

datatype response =
    Ok_tweet js_string
  | Ok_tweets "js_string list"
  | Ok_posted "js_string option" "js_string option" int int
  | Ok_thread "thread_result list" int int
  | Ok_rate_limit int int
  | Ok_status js_string
  | Bad_request js_string
  | Too_many_requests js_string js_string int
  | Server_error js_string "js_string option"

text \<open>
  \<open>Ok_tweet tweet\<close>: 200 \<open>{tweet}\<close>. \<open>Ok_tweets tweets\<close>: 200 \<open>{tweets}\<close>.
  \<open>Ok_posted tweetId tweetUrl remaining resetTime\<close>: 200
  \<open>{success: true, tweetId, tweetUrl, rateLimit: {remaining, resetTime}}\<close>.
  \<open>Ok_thread threadResults remaining resetTime\<close>: 200
  \<open>{success: true, threadResults, rateLimit: {remaining, resetTime}}\<close>.
  \<open>Ok_rate_limit remaining resetTime\<close>: 200 \<open>{remaining, resetTime}\<close>.
  \<open>Ok_status status\<close>: 200 \<open>{status}\<close>.
  \<open>Bad_request error\<close>: 400 \<open>{error}\<close>.
  \<open>Too_many_requests error details resetTime\<close>: 429 \<open>{error, details, resetTime}\<close>.
  \<open>Server_error error details\<close>: 500 \<open>{error}\<close> or \<open>{error, details}\<close>.
\<close>

fun status_code :: "response \<Rightarrow> nat" where
  "status_code (Bad_request e) = 400"
| "status_code (Too_many_requests e d t) = 429"
| "status_code (Server_error e d) = 500"
| "status_code r = 200"

section \<open>Generation routes\<close>

text \<open>
  The generative API, as the handlers see it: the \<open>k\<close>-th call of a handler, with its
  prompt, rejects with an error or resolves with
  \<open>response.data.candidates?.[0]?.content?.parts?.[0]?.text\<close>, which may be absent. (A
  body on which that expression itself throws ends in the same \<open>catch\<close> as a rejection.)
\<close>

type_synonym gemini_reply = "axios_error + js_string option"
type_synonym gemini = "nat \<Rightarrow> prompt_value \<Rightarrow> gemini_reply"
type_synonym gemini_call = "prompt_value \<times> gemini_reply"

text \<open>POST /generate-tweet, with \<open>topic\<close> and \<open>language\<close> of the request body.\<close>

definition generate_tweet ::
  "gemini \<Rightarrow> js_string option \<Rightarrow> js_string option \<Rightarrow> response \<times> gemini_call list" where
  "generate_tweet api topic language =
     (if \<not> truthy topic then (Bad_request (ascii ''Topic is required''), [])
      else
        let prompt = getPromptByLanguage (the topic) language in
        (case api 0 prompt of
           Inl err \<Rightarrow>
             (Server_error (ascii ''Failed to generate tweet content'') None,
              [(prompt, api 0 prompt)])
         | Inr tweet \<Rightarrow>
             if \<not> truthy tweet
             then (Server_error (ascii ''Failed to generate tweet content'') None,
                   [(prompt, api 0 prompt)])
             else (Ok_tweet (cleanTweet (the tweet)), [(prompt, api 0 prompt)])))"



section \<open>Publishing routes\<close>

text \<open>
  The body the handlers send to the posting API: \<open>{text}\<close>, or
  \<open>{text, reply: {in_reply_to_tweet_id}}\<close>.
\<close>

record tweet_data =
  td_text :: js_string
  in_reply_to_tweet_id :: "js_string option"

text \<open>
  The posting API, as the handlers see it: the \<open>k\<close>-th call of a handler (signing
  included), with its body, rejects with an error or resolves with
  \<open>response.data?.data?.id\<close>, which may be absent. A call is logged with its reply.
\<close>

type_synonym twitter_reply = "axios_error + js_string option"
type_synonym twitter = "nat \<Rightarrow> tweet_data \<Rightarrow> twitter_reply"
type_synonym twitter_call = "tweet_data \<times> twitter_reply"

definition succeeded :: "twitter_call \<Rightarrow> bool" where
  "succeeded c = (\<not> isl (snd c))"

text \<open>The environment: \<open>process.env.TWITTER_USERNAME\<close>.\<close>

record config =
  twitter_username :: "js_string option"

text \<open>
  \<open>tweetId ? `https://twitter.com/${process.env.TWITTER_USERNAME || "user"}/status/${tweetId}` : null\<close>
\<close>

definition tweet_url :: "config \<Rightarrow> js_string option \<Rightarrow> js_string option" where
  "tweet_url cfg tweetId =
     (if truthy tweetId
      then Some (ascii ''https://twitter.com/'' @
                 (if truthy (twitter_username cfg) then the (twitter_username cfg)
                  else ascii ''user'') @
                 ascii ''/status/'' @ the tweetId)
      else None)"

text \<open>
  POST /post-tweet runs in two parts, with the call to the posting API between them
  (\<open>await axios(...)\<close>). \<open>post_tweet_begin\<close> is the handler up to the call: it answers
  (\<open>Inl\<close>) or issues the call (\<open>Inr\<close>). \<open>post_tweet_resume\<close> is the handler from the
  reply on. \<open>post_tweet\<close> is the whole handler, run without interruption.
\<close>

definition post_tweet_begin ::
  "int \<Rightarrow> int \<Rightarrow> js_string option \<Rightarrow> limiter \<Rightarrow> (response + tweet_data) \<times> limiter" where
  "post_tweet_begin t1 t2 tweet st =
     (if \<not> truthy tweet then (Inl (Bad_request (ascii ''Tweet content is required'')), st)
      else
        (case checkRateLimit t1 t2 st of
           (rateLimit, st1) \<Rightarrow>
             if \<not> allowed rateLimit
             then (Inl (Too_many_requests (ascii ''Rate limit exceeded'')
                          (ascii ''You have reached your limit of 17 tweets per 24 hours.'')
                          (lastResetTime st1 + RESET_PERIOD)), st1)
             else (Inr \<lparr>td_text = the tweet, in_reply_to_tweet_id = None\<rparr>, st1)))"

definition post_tweet_resume :: "config \<Rightarrow> twitter_reply \<Rightarrow> limiter \<Rightarrow> response \<times> limiter" where
  "post_tweet_resume cfg reply st =
     (case reply of
        Inl err \<Rightarrow> (Server_error (ascii ''Failed to post tweet'') (Some (error_details err)), st)
      | Inr tweetId \<Rightarrow>
          (let st' = tweetCount_incr st in
           (Ok_posted tweetId (tweet_url cfg tweetId) (TWEET_LIMIT - tweetCount st')
              (lastResetTime st' + RESET_PERIOD), st')))"

definition post_tweet ::
  "config \<Rightarrow> twitter \<Rightarrow> int \<Rightarrow> int \<Rightarrow> js_string option \<Rightarrow> limiter \<Rightarrow>
   response \<times> limiter \<times> twitter_call list" where
  "post_tweet cfg api t1 t2 tweet st =
     (case post_tweet_begin t1 t2 tweet st of
        (Inl res, st1) \<Rightarrow> (res, st1, [])
      | (Inr req, st1) \<Rightarrow>
          (case post_tweet_resume cfg (api 0 req) st1 of
             (res, st2) \<Rightarrow> (res, st2, [(req, api 0 req)])))"

text \<open>
  POST /post-thread. \<open>post_thread_begin\<close> is the handler up to the loop: the body's
  \<open>tweets\<close> is \<open>None\<close> when it is absent or not an array. \<open>tweetData\<close> is the body of one
  call, \<open>thread_item_posted\<close> the loop body after a call has resolved (\<open>prevTweetId\<close>
  becomes the \<open>tweetId\<close> it was given), \<open>post_thread_loop\<close> the loop
  \<open>for (const tweetText of tweets)\<close> from the \<open>k\<close>-th text on; \<open>Inl err\<close> is the
  exception that ends in the \<open>catch\<close>.
\<close>

definition post_thread_begin ::
  "int \<Rightarrow> int \<Rightarrow> js_string list option \<Rightarrow> limiter \<Rightarrow>
   (response + js_string list) \<times> limiter" where
  "post_thread_begin t1 t2 tweets st =
     (case tweets of
        None \<Rightarrow> (Inl (Bad_request (ascii ''Valid tweets array is required'')), st)
      | Some ts \<Rightarrow>
          if length ts = 0
          then (Inl (Bad_request (ascii ''Valid tweets array is required'')), st)
          else
            (case checkRateLimit t1 t2 st of
               (rateLimit, st1) \<Rightarrow>
                 if \<not> allowed rateLimit \<or> remaining rateLimit < int (length ts)
                 then (Inl (Too_many_requests (ascii ''Rate limit exceeded'')
                              (ascii ''You have only '' @ show_int (remaining rateLimit) @
                               ascii '' tweets left out of your 17 tweets per 24 hours, but trying to post '' @
                               dec (length ts) @ ascii '' tweets.'')
                              (lastResetTime st1 + RESET_PERIOD)), st1)
                 else (Inr ts, st1)))"

definition tweetData :: "js_string \<Rightarrow> js_string option \<Rightarrow> tweet_data" where
  "tweetData tweetText prevTweetId =
     (if truthy prevTweetId
      then \<lparr>td_text = tweetText, in_reply_to_tweet_id = prevTweetId\<rparr>
      else \<lparr>td_text = tweetText, in_reply_to_tweet_id = None\<rparr>)"

definition thread_item_posted ::
  "config \<Rightarrow> js_string \<Rightarrow> js_string option \<Rightarrow> thread_result list \<Rightarrow> limiter \<Rightarrow>
   thread_result list \<times> limiter" where
  "thread_item_posted cfg tweetText tweetId threadResults st =
     (threadResults @
        [\<lparr>tr_tweetId = tweetId, tr_tweetUrl = tweet_url cfg tweetId, tr_text = tweetText\<rparr>],
      tweetCount_incr st)"

fun post_thread_loop ::
  "config \<Rightarrow> twitter \<Rightarrow> nat \<Rightarrow> js_string list \<Rightarrow> js_string option \<Rightarrow> thread_result list \<Rightarrow>
   limiter \<Rightarrow> (axios_error + thread_result list) \<times> limiter \<times> twitter_call list" where
  "post_thread_loop cfg api k [] prevTweetId threadResults st = (Inr threadResults, st, [])"
| "post_thread_loop cfg api k (tweetText # rest) prevTweetId threadResults st =
     (let req = tweetData tweetText prevTweetId in
      case api k req of
        Inl err \<Rightarrow> (Inl err, st, [(req, api k req)])
      | Inr tweetId \<Rightarrow>
          (case thread_item_posted cfg tweetText tweetId threadResults st of
             (threadResults', st') \<Rightarrow>
               (case post_thread_loop cfg api (Suc k) rest tweetId threadResults' st' of
                  (r, st'', calls) \<Rightarrow> (r, st'', (req, api k req) # calls))))"

definition post_thread ::
  "config \<Rightarrow> twitter \<Rightarrow> int \<Rightarrow> int \<Rightarrow> js_string list option \<Rightarrow> limiter \<Rightarrow>
   response \<times> limiter \<times> twitter_call list" where
  "post_thread cfg api t1 t2 tweets st =
     (case post_thread_begin t1 t2 tweets st of
        (Inl res, st1) \<Rightarrow> (res, st1, [])
      | (Inr ts, st1) \<Rightarrow>
          (case post_thread_loop cfg api 0 ts None [] st1 of
             (Inl err, st2, calls) \<Rightarrow>
               (Server_error (ascii ''Failed to post thread'') (Some (error_details err)),
                st2, calls)
           | (Inr threadResults, st2, calls) \<Rightarrow>
               (Ok_thread threadResults (TWEET_LIMIT - tweetCount st2)
                  (lastResetTime st2 + RESET_PERIOD), st2, calls)))"

text \<open>GET /rate-limit and GET /status.\<close>

definition get_rate_limit :: "int \<Rightarrow> int \<Rightarrow> limiter \<Rightarrow> response \<times> limiter" where
  "get_rate_limit t1 t2 st =
     (case checkRateLimit t1 t2 st of
        (rateLimit, st1) \<Rightarrow>
          (Ok_rate_limit (remaining rateLimit) (lastResetTime st1 + RESET_PERIOD), st1))"

definition get_status :: response where
  "get_status = Ok_status (ascii ''Online'')"

section \<open>Requests handled one after the other\<close>

text \<open>
  A request with the clock readings and the upstream behaviour it meets; \<open>handle\<close> is the
  limiter after the request's handler has run from its start to its response, no other
  handler running in between.
\<close>

datatype request =
    Generate_tweet gemini "js_string option" "js_string option"
  | Generate_thread gemini "js_string option" "int option" "js_string option"
  | Post_tweet twitter int int "js_string option"
  | Post_thread twitter int int "js_string list option"
  | Get_rate_limit int int
  | Get_status

fun handle :: "config \<Rightarrow> limiter \<Rightarrow> request \<Rightarrow> limiter" where
  "handle cfg st (Generate_tweet api topic language) = st"
| "handle cfg st (Generate_thread api topic partCount language) = st"
| "handle cfg st (Post_tweet api t1 t2 tweet) = fst (snd (post_tweet cfg api t1 t2 tweet st))"
| "handle cfg st (Post_thread api t1 t2 tweets) = fst (snd (post_thread cfg api t1 t2 tweets st))"
| "handle cfg st (Get_rate_limit t1 t2) = snd (get_rate_limit t1 t2 st)"
| "handle cfg st Get_status = st"

definition limiter_inv :: "limiter \<Rightarrow> bool" where
  "limiter_inv st = (0 \<le> tweetCount st \<and> tweetCount st \<le> 17)"

section \<open>Requests whose handlers overlap\<close>

text \<open>
  A handler is suspended at \<open>await axios(...)\<close> until the reply arrives, and the event
  loop runs other handlers meanwhile. The server's state is the limiter and the suspended
  publishing handlers: one of POST /post-tweet needs nothing more from its request; one
  of POST /post-thread keeps the text in flight, the texts still to post, \<open>prevTweetId\<close>
  and \<open>threadResults\<close>. An event is the arrival of a request (with its clock readings) or
  of the reply to the call of the \<open>k\<close>-th suspended handler. Responses are not recorded.
\<close>

datatype suspended =
    Awaiting_tweet
  | Awaiting_thread js_string "js_string list" "js_string option" "thread_result list"

datatype event =
    Post_tweet_arrives int int "js_string option"
  | Post_thread_arrives int int "js_string list option"
  | Rate_limit_arrives int int
  | Reply_arrives nat twitter_reply

record server =
  the_limiter :: limiter
  suspended_handlers :: "suspended list"

fun resume :: "config \<Rightarrow> suspended \<Rightarrow> twitter_reply \<Rightarrow> limiter \<Rightarrow> suspended option \<times> limiter" where
  "resume cfg Awaiting_tweet reply st = (None, snd (post_tweet_resume cfg reply st))"
| "resume cfg (Awaiting_thread tweetText rest prevTweetId threadResults) reply st =
     (case reply of
        Inl err \<Rightarrow> (None, st)
      | Inr tweetId \<Rightarrow>
          (case thread_item_posted cfg tweetText tweetId threadResults st of
             (threadResults', st') \<Rightarrow>
               (case rest of
                  [] \<Rightarrow> (None, st')
                | t # ts \<Rightarrow> (Some (Awaiting_thread t ts tweetId threadResults'), st'))))"

fun server_step :: "config \<Rightarrow> server \<Rightarrow> event \<Rightarrow> server" where
  "server_step cfg s (Post_tweet_arrives t1 t2 tweet) =
     (case post_tweet_begin t1 t2 tweet (the_limiter s) of
        (Inl res, st1) \<Rightarrow> s\<lparr>the_limiter := st1\<rparr>
      | (Inr req, st1) \<Rightarrow>
          s\<lparr>the_limiter := st1, suspended_handlers := suspended_handlers s @ [Awaiting_tweet]\<rparr>)"
| "server_step cfg s (Post_thread_arrives t1 t2 tweets) =
     (case post_thread_begin t1 t2 tweets (the_limiter s) of
        (Inl res, st1) \<Rightarrow> s\<lparr>the_limiter := st1\<rparr>
      | (Inr ts, st1) \<Rightarrow>
          (case ts of
             [] \<Rightarrow> s\<lparr>the_limiter := st1\<rparr>
           | t # rest \<Rightarrow>
               s\<lparr>the_limiter := st1,
                 suspended_handlers := suspended_handlers s @ [Awaiting_thread t rest None []]\<rparr>))"
| "server_step cfg s (Rate_limit_arrives t1 t2) =
     s\<lparr>the_limiter := snd (get_rate_limit t1 t2 (the_limiter s))\<rparr>"
| "server_step cfg s (Reply_arrives k reply) =
     (if k < length (suspended_handlers s)
      then
        (case resume cfg (suspended_handlers s ! k) reply (the_limiter s) of
           (None, st') \<Rightarrow>
             \<lparr>the_limiter = st',
              suspended_handlers =
                take k (suspended_handlers s) @ drop (Suc k) (suspended_handlers s)\<rparr>
         | (Some h, st') \<Rightarrow>
             \<lparr>the_limiter = st', suspended_handlers = (suspended_handlers s)[k := h]\<rparr>)
      else s)"

definition server_init :: "int \<Rightarrow> server" where
  "server_init t0 = \<lparr>the_limiter = limiter_init t0, suspended_handlers = []\<rparr>"

definition server_run :: "config \<Rightarrow> server \<Rightarrow> event list \<Rightarrow> server" where
  "server_run cfg s events = foldl (server_step cfg) s events"

text \<open>
  The events of a request whose handler runs alone, from a server in which no handler is
  suspended and whose limiter is \<open>st\<close>: its arrival, followed by the replies to the
  calls it issues, in their order. \<open>sequential_events\<close> are the events of requests that
  are handled one after the other. The generation routes and GET /status do not touch
  the limiter and are no events of this model.
\<close>

fun events_of :: "config \<Rightarrow> limiter \<Rightarrow> request \<Rightarrow> event list" where
  "events_of cfg st (Post_tweet api t1 t2 tweet) =
     Post_tweet_arrives t1 t2 tweet #
     map (\<lambda>c. Reply_arrives 0 (snd c)) (snd (snd (post_tweet cfg api t1 t2 tweet st)))"
| "events_of cfg st (Post_thread api t1 t2 tweets) =
     Post_thread_arrives t1 t2 tweets #
     map (\<lambda>c. Reply_arrives 0 (snd c)) (snd (snd (post_thread cfg api t1 t2 tweets st)))"
| "events_of cfg st (Get_rate_limit t1 t2) = [Rate_limit_arrives t1 t2]"
| "events_of cfg st req = []"

fun sequential_events :: "config \<Rightarrow> limiter \<Rightarrow> request list \<Rightarrow> event list" where
  "sequential_events cfg st [] = []"
| "sequential_events cfg st (req # reqs) =
     events_of cfg st req @ sequential_events cfg (handle cfg st req) reqs"

section \<open>Sample upstream behaviours\<close>

text \<open>
  Behaviours of the posting API and of the generative API used in the examples: every
  call resolves with an identifier made of its number; every call resolves with a body
  that has no identifier; the call number \<open>n\<close> is rejected and the others resolve; every
  generation call resolves with the same text.
\<close>

definition twitter_ok :: twitter where
  "twitter_ok k req = Inr (Some (ascii ''id'' @ dec k))"

definition twitter_no_id :: twitter where
  "twitter_no_id k req = Inr None"

definition twitter_fails_at :: "nat \<Rightarrow> twitter" where
  "twitter_fails_at n k req =
     (if k = n then Inl \<lparr>response_data = None, message = ascii ''Request failed''\<rparr>
      else Inr (Some (ascii ''id'' @ dec k)))"


definition sample_config :: config where
  "sample_config = \<lparr>twitter_username = Some (ascii ''relay'')\<rparr>"

declare dec.simps [simp del]


section \<open>Basic facts\<close>



section \<open>Properties of the rate limiter\<close>

text \<open>
  C1. For every limiter state and clock reading: when the time elapsed since the window
  start exceeds 24 hours, \<open>checkRateLimit\<close> sets the count to 0 and the window start to the
  current clock reading and reports allowed with 17 remaining; otherwise, with a count of
  17 or more, it reports not allowed with 0 remaining; otherwise it reports allowed with
  17 minus the count remaining. In the last two cases the state is left as it was.
\<close>

theorem checkRateLimit_cases:
  "(t1 - lastResetTime st > 24 * 60 * 60 * 1000 \<longrightarrow>
      checkRateLimit t1 t2 st =
        (\<lparr>allowed = True, remaining = 17\<rparr>, st\<lparr>tweetCount := 0, lastResetTime := t2\<rparr>)) \<and>
   (\<not> t1 - lastResetTime st > 24 * 60 * 60 * 1000 \<and> tweetCount st \<ge> 17 \<longrightarrow>
      checkRateLimit t1 t2 st = (\<lparr>allowed = False, remaining = 0\<rparr>, st)) \<and>
   (\<not> t1 - lastResetTime st > 24 * 60 * 60 * 1000 \<and> \<not> tweetCount st \<ge> 17 \<longrightarrow>
      checkRateLimit t1 t2 st = (\<lparr>allowed = True, remaining = 17 - tweetCount st\<rparr>, st))"
  by (simp add: checkRateLimit_def TWEET_LIMIT_def RESET_PERIOD_def)

theorem checkRateLimit_cases_witness:
  "checkRateLimit 86400001 86400001 \<lparr>tweetCount = 5, lastResetTime = 0\<rparr> =
     (\<lparr>allowed = True, remaining = 17\<rparr>, \<lparr>tweetCount = 0, lastResetTime = 86400001\<rparr>) \<and>
   checkRateLimit 86400000 86400000 \<lparr>tweetCount = 17, lastResetTime = 0\<rparr> =
     (\<lparr>allowed = False, remaining = 0\<rparr>, \<lparr>tweetCount = 17, lastResetTime = 0\<rparr>) \<and>
   checkRateLimit 1000 1000 \<lparr>tweetCount = 5, lastResetTime = 0\<rparr> =
     (\<lparr>allowed = True, remaining = 12\<rparr>, \<lparr>tweetCount = 5, lastResetTime = 0\<rparr>)"
  using checkRateLimit_cases [of 86400001 "\<lparr>tweetCount = 5, lastResetTime = 0\<rparr>" 86400001]
    checkRateLimit_cases [of 86400000 "\<lparr>tweetCount = 17, lastResetTime = 0\<rparr>" 86400000]
    checkRateLimit_cases [of 1000 "\<lparr>tweetCount = 5, lastResetTime = 0\<rparr>" 1000]
  by simp


section \<open>Properties of the sanitizer\<close>

lemma replace_scan_inner:
  "0 < i \<Longrightarrow> i + length m + 1 = n \<Longrightarrow>
   replace_scan i n (m @ [b]) = m @ (if is_quote b then [] else [b])"
  by (induction m arbitrary: i) auto

lemma replace_quotes_Nil: "replace_quotes [] = []"
  by (simp add: replace_quotes_def)

lemma replace_quotes_single: "replace_quotes [a] = (if is_quote a then [] else [a])"
  by (simp add: replace_quotes_def)

lemma replace_quotes_ends:
  "replace_quotes (a # m @ [b]) =
     (if is_quote a then [] else [a]) @ m @ (if is_quote b then [] else [b])"
  by (simp add: replace_quotes_def replace_scan_inner)

lemma cleanTweet_hello: "cleanTweet (34 # ascii ''hello'' @ [34]) = ascii ''hello''"
  by (simp add: cleanTweet_def replace_quotes_def is_quote_def trim_def ascii_def
      is_white_space_def)

text \<open>
  C6, as the code has it. The sanitizer removes a quote character at the start of the
  text when there is one and a quote character at the end when there is one, each on its
  own (they need not form a pair, nor be the same character), and then trims white space.
  So a text between two quotes loses exactly that outer pair, a text with a quote at one
  end only loses that quote, and a text with no quote at either end is only trimmed; the
  text \<open>"hello"\<close> becomes \<open>hello\<close>.
\<close>

theorem cleanTweet_strips_each_end:
  "(is_quote a \<and> is_quote b \<longrightarrow> cleanTweet (a # m @ [b]) = trim m) \<and>
   (is_quote a \<and> \<not> is_quote b \<longrightarrow> cleanTweet (a # m @ [b]) = trim (m @ [b])) \<and>
   (\<not> is_quote a \<and> is_quote b \<longrightarrow> cleanTweet (a # m @ [b]) = trim (a # m)) \<and>
   (\<not> is_quote a \<and> \<not> is_quote b \<longrightarrow> cleanTweet (a # m @ [b]) = trim (a # m @ [b])) \<and>
   cleanTweet [a] = (if is_quote a then [] else trim [a]) \<and>
   cleanTweet [] = [] \<and>
   cleanTweet (34 # ascii ''hello'' @ [34]) = ascii ''hello''"
proof -
  have ends: "cleanTweet (a # m @ [b]) =
      trim ((if is_quote a then [] else [a]) @ m @ (if is_quote b then [] else [b]))"
    by (simp only: cleanTweet_def replace_quotes_ends)
  have single: "cleanTweet [a] = (if is_quote a then [] else trim [a])"
    by (simp add: cleanTweet_def replace_quotes_single trim_def)
  have empty: "cleanTweet [] = []"
    by (simp add: cleanTweet_def replace_quotes_Nil trim_def)
  from ends single empty cleanTweet_hello show ?thesis
    by simp
qed

text \<open>
  Examples of the four cases: \<open>"hi'\<close>, \<open>"hi!\<close>, a space, \<open>hi\<close> and a quote, and \<open>hi\<close>
  between a space and a line feed.
\<close>

theorem cleanTweet_strips_each_end_witness:
  "cleanTweet (34 # ascii ''hi'' @ [39]) = ascii ''hi'' \<and>
   cleanTweet (34 # ascii ''hi'' @ [33]) = ascii ''hi!'' \<and>
   cleanTweet (32 # ascii ''hi'' @ [34]) = ascii ''hi'' \<and>
   cleanTweet (32 # ascii ''hi'' @ [10]) = ascii ''hi''"
  using cleanTweet_strips_each_end [of 34 39 "ascii ''hi''"]
    cleanTweet_strips_each_end [of 34 33 "ascii ''hi''"]
    cleanTweet_strips_each_end [of 32 34 "ascii ''hi''"]
    cleanTweet_strips_each_end [of 32 10 "ascii ''hi''"]
  by (simp add: is_quote_def trim_def ascii_def is_white_space_def)

text \<open>
  The text \<open>"hello\<close> has a quote at its start and none at its end, so no pair of quotes
  surrounds it; the sanitizer still removes the quote, and the result is not the trimmed
  input.
\<close>

theorem cleanTweet_unmatched_quote:
  "\<not> is_quote (last (34 # ascii ''hello'')) \<and>
   cleanTweet (34 # ascii ''hello'') = ascii ''hello'' \<and>
   trim (34 # ascii ''hello'') = 34 # ascii ''hello'' \<and>
   cleanTweet (34 # ascii ''hello'') \<noteq> trim (34 # ascii ''hello'')"
  by (simp add: cleanTweet_def replace_quotes_def is_quote_def trim_def ascii_def
      is_white_space_def)


section \<open>Properties of the prompt builders\<close>

lemma thread_english_nonempty:
  "thread_english_1 @ n @ thread_english_2 @ topic @ thread_english_3 \<noteq> []"
  by (simp add: thread_english_1_def ascii_def)

















section \<open>Properties of the publishing routes\<close>

lemma post_thread_loop_count:
  "post_thread_loop cfg api k ts prev results st = (r, st', calls) \<Longrightarrow>
   st' = st\<lparr>tweetCount := tweetCount st + int (length (filter succeeded calls))\<rparr>"
proof (induction ts arbitrary: k prev results st r st' calls)
  case Nil
  then show ?case by simp
next
  case (Cons t ts)
  show ?case
  proof (cases "api k (tweetData t prev)")
    case (Inl err)
    with Cons.prems show ?thesis
      by (auto simp: succeeded_def)
  next
    case (Inr tweetId)
    obtain r2 st2 calls2 where rest:
      "post_thread_loop cfg api (Suc k) ts tweetId
         (fst (thread_item_posted cfg t tweetId results st))
         (snd (thread_item_posted cfg t tweetId results st)) = (r2, st2, calls2)"
      by (cases "post_thread_loop cfg api (Suc k) ts tweetId
         (fst (thread_item_posted cfg t tweetId results st))
         (snd (thread_item_posted cfg t tweetId results st))") auto
    from Cons.IH [OF rest] Cons.prems Inr rest show ?thesis
      by (auto simp: succeeded_def split_beta thread_item_posted_def tweetCount_incr_def)
  qed
qed

lemma post_thread_loop_calls:
  "post_thread_loop cfg api k ts prev results st = (r, st', calls) \<Longrightarrow>
   length calls \<le> length ts \<and>
   map (td_text \<circ> fst) calls = take (length calls) ts \<and>
   (case r of
      Inr results' \<Rightarrow> length calls = length ts \<and> list_all succeeded calls \<and>
        length results' = length results + length ts
    | Inl err \<Rightarrow> calls \<noteq> [] \<and> snd (last calls) = Inl err \<and>
        list_all succeeded (butlast calls))"
proof (induction ts arbitrary: k prev results st r st' calls)
  case Nil
  then show ?case by auto
next
  case (Cons t ts)
  show ?case
  proof (cases "api k (tweetData t prev)")
    case (Inl err)
    with Cons.prems show ?thesis
      by (auto simp: tweetData_def)
  next
    case (Inr tweetId)
    obtain r2 st2 calls2 where rest:
      "post_thread_loop cfg api (Suc k) ts tweetId
         (fst (thread_item_posted cfg t tweetId results st))
         (snd (thread_item_posted cfg t tweetId results st)) = (r2, st2, calls2)"
      by (cases "post_thread_loop cfg api (Suc k) ts tweetId
         (fst (thread_item_posted cfg t tweetId results st))
         (snd (thread_item_posted cfg t tweetId results st))") auto
    from Cons.IH [OF rest] Cons.prems Inr rest show ?thesis
      by (auto simp: succeeded_def split_beta tweetData_def thread_item_posted_def
          split: sum.splits)
  qed
qed

lemma post_thread_loop_replies:
  "post_thread_loop cfg api k ts prev results st = (r, st', calls) \<Longrightarrow>
   (calls \<noteq> [] \<longrightarrow> fst (calls ! 0) = tweetData (ts ! 0) prev) \<and>
   (\<forall>i. Suc i < length calls \<longrightarrow>
      (\<exists>tweetId. snd (calls ! i) = Inr tweetId \<and>
         fst (calls ! Suc i) = tweetData (ts ! Suc i) tweetId))"
proof (induction ts arbitrary: k prev results st r st' calls)
  case Nil
  then show ?case by auto
next
  case (Cons t ts)
  show ?case
  proof (cases "api k (tweetData t prev)")
    case (Inl err)
    with Cons.prems show ?thesis
      by auto
  next
    case (Inr tweetId)
    obtain r2 st2 calls2 where rest:
      "post_thread_loop cfg api (Suc k) ts tweetId
         (fst (thread_item_posted cfg t tweetId results st))
         (snd (thread_item_posted cfg t tweetId results st)) = (r2, st2, calls2)"
      by (cases "post_thread_loop cfg api (Suc k) ts tweetId
         (fst (thread_item_posted cfg t tweetId results st))
         (snd (thread_item_posted cfg t tweetId results st))") auto
    from Cons.prems Inr rest
    have calls: "calls = (tweetData t prev, Inr tweetId) # calls2"
      by (auto simp: split_beta)
    note IH = Cons.IH [OF rest]
    have "\<exists>tweetId. snd (calls ! i) = Inr tweetId \<and>
         fst (calls ! Suc i) = tweetData ((t # ts) ! Suc i) tweetId"
      if "Suc i < length calls" for i
    proof (cases i)
      case 0
      with that calls IH post_thread_loop_calls [OF rest] show ?thesis
        by (cases calls2; cases ts) auto
    next
      case (Suc j)
      with that calls IH show ?thesis
        by auto
    qed
    with calls show ?thesis
      by auto
  qed
qed


lemma post_thread_rejected:
  assumes "tweets \<noteq> []"
    and "\<not> allowed (fst (checkRateLimit t1 t2 st)) \<or>
         remaining (fst (checkRateLimit t1 t2 st)) < int (length tweets)"
  shows "post_thread cfg api t1 t2 (Some tweets) st =
     (Too_many_requests (ascii ''Rate limit exceeded'')
        (ascii ''You have only '' @ show_int (remaining (fst (checkRateLimit t1 t2 st))) @
         ascii '' tweets left out of your 17 tweets per 24 hours, but trying to post '' @
         dec (length tweets) @ ascii '' tweets.'')
        (lastResetTime (snd (checkRateLimit t1 t2 st)) + RESET_PERIOD),
      snd (checkRateLimit t1 t2 st), [])"
  using assms by (auto simp: post_thread_def post_thread_begin_def split: prod.splits)

lemma post_thread_admitted:
  assumes "tweets \<noteq> []"
    and "allowed (fst (checkRateLimit t1 t2 st))"
    and "int (length tweets) \<le> remaining (fst (checkRateLimit t1 t2 st))"
    and "post_thread_loop cfg api 0 tweets None [] (snd (checkRateLimit t1 t2 st)) =
         (r, st2, calls)"
  shows "post_thread cfg api t1 t2 (Some tweets) st =
     ((case r of
         Inl err \<Rightarrow> Server_error (ascii ''Failed to post thread'') (Some (error_details err))
       | Inr threadResults \<Rightarrow>
           Ok_thread threadResults (TWEET_LIMIT - tweetCount st2)
             (lastResetTime st2 + RESET_PERIOD)),
      st2, calls)"
  using assms by (auto simp: post_thread_def post_thread_begin_def split: prod.splits sum.splits)

lemma post_thread_invalid:
  "post_thread cfg api t1 t2 None st =
     (Bad_request (ascii ''Valid tweets array is required''), st, [])"
  "post_thread cfg api t1 t2 (Some []) st =
     (Bad_request (ascii ''Valid tweets array is required''), st, [])"
  by (simp_all add: post_thread_def post_thread_begin_def)

lemma post_thread_calls_admitted:
  assumes "snd (snd (post_thread cfg api t1 t2 tweets st)) \<noteq> []"
  shows "\<exists>ts. tweets = Some ts \<and> ts \<noteq> [] \<and> allowed (fst (checkRateLimit t1 t2 st)) \<and>
           int (length ts) \<le> remaining (fst (checkRateLimit t1 t2 st))"
proof (cases tweets)
  case None
  with assms show ?thesis
    by (simp add: post_thread_invalid)
next
  case (Some ts)
  show ?thesis
  proof (cases "ts = []")
    case True
    with assms Some show ?thesis
      by (simp add: post_thread_invalid)
  next
    case False
    show ?thesis
    proof (cases "\<not> allowed (fst (checkRateLimit t1 t2 st)) \<or>
         remaining (fst (checkRateLimit t1 t2 st)) < int (length ts)")
      case True
      from assms Some post_thread_rejected [OF False True] show ?thesis
        by simp
    next
      case admitted: False
      with False Some show ?thesis
        by auto
    qed
  qed
qed


text \<open>
  C3, as the code has it. For a thread-publish request with a non-empty list of \<open>n\<close>
  texts: when the limiter reports not allowed, or fewer than \<open>n\<close> remaining, the handler
  responds 429 with the reset time (window start plus 24 hours), issues no publish call
  and consumes no quota: it leaves the limiter as the check left it. That is the limiter
  as it was before the request when no more than 24 hours have passed since the window
  start; when more have passed, the check has set the count to 0 and the window start to
  the current time before the handler refuses (which it then does only for more than 17
  texts). A publish call is issued only when the limiter reports allowed with at least
  \<open>n\<close> remaining, and then one is.
\<close>

theorem post_thread_rate_limit_gate:
  assumes "tweets \<noteq> []"
  shows "(\<not> allowed (fst (checkRateLimit t1 t2 st)) \<or>
          remaining (fst (checkRateLimit t1 t2 st)) < int (length tweets) \<longrightarrow>
            post_thread cfg api t1 t2 (Some tweets) st =
              (Too_many_requests (ascii ''Rate limit exceeded'')
                 (ascii ''You have only '' @
                  show_int (remaining (fst (checkRateLimit t1 t2 st))) @
                  ascii '' tweets left out of your 17 tweets per 24 hours, but trying to post '' @
                  dec (length tweets) @ ascii '' tweets.'')
                 (lastResetTime (snd (checkRateLimit t1 t2 st)) + 24 * 60 * 60 * 1000),
               snd (checkRateLimit t1 t2 st), []) \<and>
            status_code (fst (post_thread cfg api t1 t2 (Some tweets) st)) = 429 \<and>
            (t1 - lastResetTime st \<le> 24 * 60 * 60 * 1000 \<longrightarrow>
               fst (snd (post_thread cfg api t1 t2 (Some tweets) st)) = st) \<and>
            (24 * 60 * 60 * 1000 < t1 - lastResetTime st \<longrightarrow>
               fst (snd (post_thread cfg api t1 t2 (Some tweets) st)) =
                 st\<lparr>tweetCount := 0, lastResetTime := t2\<rparr> \<and>
               17 < int (length tweets))) \<and>
         (snd (snd (post_thread cfg api t1 t2 (Some tweets) st)) \<noteq> [] \<longleftrightarrow>
            allowed (fst (checkRateLimit t1 t2 st)) \<and>
            int (length tweets) \<le> remaining (fst (checkRateLimit t1 t2 st)))"
proof -
  let ?rl = "fst (checkRateLimit t1 t2 st)"
  let ?run = "post_thread cfg api t1 t2 (Some tweets) st"
  have period: "RESET_PERIOD = 24 * 60 * 60 * 1000"
    by (simp add: RESET_PERIOD_def)
  have unchanged: "snd (checkRateLimit t1 t2 st) = st"
    if "t1 - lastResetTime st \<le> 24 * 60 * 60 * 1000"
    using that by (simp add: checkRateLimit_def RESET_PERIOD_def)
  have expired: "checkRateLimit t1 t2 st =
      (\<lparr>allowed = True, remaining = 17\<rparr>, st\<lparr>tweetCount := 0, lastResetTime := t2\<rparr>)"
    if "24 * 60 * 60 * 1000 < t1 - lastResetTime st"
    using that by (simp add: checkRateLimit_def RESET_PERIOD_def TWEET_LIMIT_def)
  have rejected: "?run =
        (Too_many_requests (ascii ''Rate limit exceeded'')
           (ascii ''You have only '' @ show_int (remaining ?rl) @
            ascii '' tweets left out of your 17 tweets per 24 hours, but trying to post '' @
            dec (length tweets) @ ascii '' tweets.'')
           (lastResetTime (snd (checkRateLimit t1 t2 st)) + 24 * 60 * 60 * 1000),
         snd (checkRateLimit t1 t2 st), []) \<and>
       status_code (fst ?run) = 429 \<and>
       (t1 - lastResetTime st \<le> 24 * 60 * 60 * 1000 \<longrightarrow> fst (snd ?run) = st) \<and>
       (24 * 60 * 60 * 1000 < t1 - lastResetTime st \<longrightarrow>
          fst (snd ?run) = st\<lparr>tweetCount := 0, lastResetTime := t2\<rparr> \<and>
          17 < int (length tweets))"
    if no: "\<not> allowed ?rl \<or> remaining ?rl < int (length tweets)"
  proof -
    have reset: "fst (snd ?run) = st\<lparr>tweetCount := 0, lastResetTime := t2\<rparr> \<and>
        17 < int (length tweets)"
      if late: "24 * 60 * 60 * 1000 < t1 - lastResetTime st"
      using no by (simp add: post_thread_rejected [OF assms no] expired [OF late])
    from unchanged reset show ?thesis
      by (simp only: post_thread_rejected [OF assms no] period) simp
  qed
  have begins: "snd (snd ?run) \<noteq> []"
    if ok: "allowed ?rl" "int (length tweets) \<le> remaining ?rl"
  proof -
    obtain r st2 calls where loop:
      "post_thread_loop cfg api 0 tweets None [] (snd (checkRateLimit t1 t2 st)) =
         (r, st2, calls)"
      using prod_cases3 by blast
    from post_thread_loop_calls [OF loop] assms have "calls \<noteq> []"
      by (cases r) auto
    then show ?thesis
      by (simp only: post_thread_admitted [OF assms ok loop]) simp
  qed
  have admitted: "allowed ?rl \<and> int (length tweets) \<le> remaining ?rl"
    if "snd (snd ?run) \<noteq> []"
    using post_thread_calls_admitted [OF that] by simp
  from rejected begins admitted show ?thesis
    by blast
qed

text \<open>
  With 16 posts consumed in the current window, a thread of two texts is refused: one
  post is left, no call is made, the limiter is unchanged. With 5 posts consumed in a
  window that has expired, a thread of 18 texts is refused after the check has reset the
  limiter.
\<close>

theorem post_thread_rate_limit_gate_witness:
  "post_thread sample_config twitter_ok 1000 1000 (Some [ascii ''A'', ascii ''B''])
     \<lparr>tweetCount = 16, lastResetTime = 0\<rparr> =
     (Too_many_requests (ascii ''Rate limit exceeded'')
        (ascii ''You have only 1 tweets left out of your 17 tweets per 24 hours, but trying to post 2 tweets.'')
        86400000,
      \<lparr>tweetCount = 16, lastResetTime = 0\<rparr>, []) \<and>
   fst (snd (post_thread sample_config twitter_ok 90000000 90000005
               (Some (replicate 18 (ascii ''a''))) \<lparr>tweetCount = 5, lastResetTime = 0\<rparr>)) =
     \<lparr>tweetCount = 0, lastResetTime = 90000005\<rparr>"
proof -
  have nonempty: "[ascii ''A'', ascii ''B''] \<noteq> []"
    by simp
  have many: "replicate 18 (ascii ''a'') \<noteq> []"
    by simp
  have check_late: "checkRateLimit 90000000 90000005 \<lparr>tweetCount = 5, lastResetTime = 0\<rparr> =
      (\<lparr>allowed = True, remaining = 17\<rparr>, \<lparr>tweetCount = 0, lastResetTime = 90000005\<rparr>)"
    by (simp add: checkRateLimit_def TWEET_LIMIT_def RESET_PERIOD_def)
  have few_late:
    "\<not> allowed (fst (checkRateLimit 90000000 90000005 \<lparr>tweetCount = 5, lastResetTime = 0\<rparr>)) \<or>
      remaining (fst (checkRateLimit 90000000 90000005 \<lparr>tweetCount = 5, lastResetTime = 0\<rparr>))
        < int (length (replicate 18 (ascii ''a'')))"
    by (simp add: check_late)
  have late: "24 * 60 * 60 * 1000 < 90000000 - lastResetTime \<lparr>tweetCount = 5, lastResetTime = 0\<rparr>"
    by simp
  from post_thread_rate_limit_gate [OF many, of 90000000 90000005
      "\<lparr>tweetCount = 5, lastResetTime = 0\<rparr>" sample_config twitter_ok] few_late late
  have reset: "fst (snd (post_thread sample_config twitter_ok 90000000 90000005
               (Some (replicate 18 (ascii ''a''))) \<lparr>tweetCount = 5, lastResetTime = 0\<rparr>)) =
     \<lparr>tweetCount = 5, lastResetTime = 0\<rparr>\<lparr>tweetCount := 0, lastResetTime := 90000005\<rparr>"
    by blast
  have check: "checkRateLimit 1000 1000 \<lparr>tweetCount = 16, lastResetTime = 0\<rparr> =
      (\<lparr>allowed = True, remaining = 1\<rparr>, \<lparr>tweetCount = 16, lastResetTime = 0\<rparr>)"
    by (simp add: checkRateLimit_def TWEET_LIMIT_def RESET_PERIOD_def)
  have few: "\<not> allowed (fst (checkRateLimit 1000 1000 \<lparr>tweetCount = 16, lastResetTime = 0\<rparr>)) \<or>
      remaining (fst (checkRateLimit 1000 1000 \<lparr>tweetCount = 16, lastResetTime = 0\<rparr>))
        < int (length [ascii ''A'', ascii ''B''])"
    by (simp add: check)
  from post_thread_rate_limit_gate [OF nonempty, of 1000 1000
      "\<lparr>tweetCount = 16, lastResetTime = 0\<rparr>" sample_config twitter_ok] few
  have "post_thread sample_config twitter_ok 1000 1000 (Some [ascii ''A'', ascii ''B''])
     \<lparr>tweetCount = 16, lastResetTime = 0\<rparr> =
     (Too_many_requests (ascii ''Rate limit exceeded'')
        (ascii ''You have only '' @
         show_int (remaining (fst (checkRateLimit 1000 1000
            \<lparr>tweetCount = 16, lastResetTime = 0\<rparr>))) @
         ascii '' tweets left out of your 17 tweets per 24 hours, but trying to post '' @
         dec (length [ascii ''A'', ascii ''B'']) @ ascii '' tweets.'')
        (lastResetTime (snd (checkRateLimit 1000 1000
            \<lparr>tweetCount = 16, lastResetTime = 0\<rparr>)) + 24 * 60 * 60 * 1000),
      snd (checkRateLimit 1000 1000 \<lparr>tweetCount = 16, lastResetTime = 0\<rparr>), [])"
    by blast
  with reset show ?thesis
    by (simp add: check show_int_def dec.simps ascii_def)
qed

text \<open>
  With 17 posts counted in a window that started at time 0, a thread of 18 texts that
  arrives at time 86400001 is refused with 429, and the count has changed from 17 to 0
  (and the window start to 86400001): the check found the window expired.
\<close>

theorem post_thread_refusal_after_reset:
  "post_thread sample_config twitter_ok 86400001 86400001 (Some (replicate 18 (ascii ''a'')))
     \<lparr>tweetCount = 17, lastResetTime = 0\<rparr> =
     (Too_many_requests (ascii ''Rate limit exceeded'')
        (ascii ''You have only 17 tweets left out of your 17 tweets per 24 hours, but trying to post 18 tweets.'')
        172800001,
      \<lparr>tweetCount = 0, lastResetTime = 86400001\<rparr>, [])"
  by (simp add: post_thread_def post_thread_begin_def checkRateLimit_def TWEET_LIMIT_def
      RESET_PERIOD_def show_int_def dec.simps ascii_def)


lemma post_tweet_invalid:
  "\<not> truthy tweet \<Longrightarrow>
   post_tweet cfg api t1 t2 tweet st =
     (Bad_request (ascii ''Tweet content is required''), st, [])"
  by (simp add: post_tweet_def post_tweet_begin_def)

lemma post_tweet_rejected:
  assumes "truthy tweet" and "\<not> allowed (fst (checkRateLimit t1 t2 st))"
  shows "post_tweet cfg api t1 t2 tweet st =
     (Too_many_requests (ascii ''Rate limit exceeded'')
        (ascii ''You have reached your limit of 17 tweets per 24 hours.'')
        (lastResetTime (snd (checkRateLimit t1 t2 st)) + RESET_PERIOD),
      snd (checkRateLimit t1 t2 st), [])"
  using assms by (simp add: post_tweet_def post_tweet_begin_def split_beta)

lemma post_tweet_admitted:
  assumes "truthy tweet" and "allowed (fst (checkRateLimit t1 t2 st))"
  shows "post_tweet cfg api t1 t2 tweet st =
     (fst (post_tweet_resume cfg
             (api 0 \<lparr>td_text = the tweet, in_reply_to_tweet_id = None\<rparr>)
             (snd (checkRateLimit t1 t2 st))),
      snd (post_tweet_resume cfg
             (api 0 \<lparr>td_text = the tweet, in_reply_to_tweet_id = None\<rparr>)
             (snd (checkRateLimit t1 t2 st))),
      [(\<lparr>td_text = the tweet, in_reply_to_tweet_id = None\<rparr>,
        api 0 \<lparr>td_text = the tweet, in_reply_to_tweet_id = None\<rparr>)])"
  using assms by (simp add: post_tweet_def post_tweet_begin_def split_beta)

lemma post_tweet_resume_state:
  "snd (post_tweet_resume cfg (Inr tweetId) st) = st\<lparr>tweetCount := tweetCount st + 1\<rparr>"
  "snd (post_tweet_resume cfg (Inl err) st) = st"
  by (simp_all add: post_tweet_resume_def tweetCount_incr_def Let_def)

lemma post_tweet_count:
  assumes "truthy tweet"
  shows "fst (snd (post_tweet cfg api t1 t2 tweet st)) =
     (snd (checkRateLimit t1 t2 st))
       \<lparr>tweetCount := tweetCount (snd (checkRateLimit t1 t2 st)) +
          int (length (filter succeeded (snd (snd (post_tweet cfg api t1 t2 tweet st)))))\<rparr>"
proof (cases "allowed (fst (checkRateLimit t1 t2 st))")
  case False
  then show ?thesis
    by (simp add: post_tweet_rejected [OF assms])
next
  case True
  show ?thesis
    by (cases "api 0 \<lparr>td_text = the tweet, in_reply_to_tweet_id = None\<rparr>")
      (simp_all add: post_tweet_admitted [OF assms True] post_tweet_resume_state succeeded_def)
qed

lemma post_thread_count:
  assumes "tweets \<noteq> []"
  shows "fst (snd (post_thread cfg api t1 t2 (Some tweets) st)) =
     (snd (checkRateLimit t1 t2 st))
       \<lparr>tweetCount := tweetCount (snd (checkRateLimit t1 t2 st)) +
          int (length (filter succeeded
            (snd (snd (post_thread cfg api t1 t2 (Some tweets) st)))))\<rparr>"
proof (cases "\<not> allowed (fst (checkRateLimit t1 t2 st)) \<or>
         remaining (fst (checkRateLimit t1 t2 st)) < int (length tweets)")
  case True
  show ?thesis
    by (simp add: post_thread_rejected [OF assms True])
next
  case False
  then have ok: "allowed (fst (checkRateLimit t1 t2 st))"
    "int (length tweets) \<le> remaining (fst (checkRateLimit t1 t2 st))"
    by auto
  obtain r st2 calls where loop:
    "post_thread_loop cfg api 0 tweets None [] (snd (checkRateLimit t1 t2 st)) = (r, st2, calls)"
    using prod_cases3 by blast
  from post_thread_loop_count [OF loop] show ?thesis
    by (simp add: post_thread_admitted [OF assms ok loop])
qed

text \<open>
  C2. In every publish operation the count is incremented by exactly 1 after a publish
  call has resolved, and is left as it is when the call is rejected: this holds for the
  continuation of the single-post handler and for the loop body of the thread handler,
  in whatever state they run. Hence the count after the single-post handler, and after
  the thread handler, is the count after the rate-limit check plus the number of calls
  that succeeded; in a thread at most the last call has failed.
\<close>

theorem publish_consumes_on_success_only:
  "snd (post_tweet_resume cfg (Inr tweetId) st) = st\<lparr>tweetCount := tweetCount st + 1\<rparr> \<and>
   snd (post_tweet_resume cfg (Inl err) st) = st \<and>
   snd (thread_item_posted cfg tweetText tweetId threadResults st) =
     st\<lparr>tweetCount := tweetCount st + 1\<rparr> \<and>
   fst (snd (post_thread_loop cfg api k ts prevTweetId threadResults st)) =
     st\<lparr>tweetCount := tweetCount st +
          int (length (filter succeeded
            (snd (snd (post_thread_loop cfg api k ts prevTweetId threadResults st)))))\<rparr> \<and>
   list_all succeeded
     (butlast (snd (snd (post_thread_loop cfg api k ts prevTweetId threadResults st)))) \<and>
   (truthy tweet \<longrightarrow>
      fst (snd (post_tweet cfg api t1 t2 tweet st)) =
        (snd (checkRateLimit t1 t2 st))
          \<lparr>tweetCount := tweetCount (snd (checkRateLimit t1 t2 st)) +
             int (length (filter succeeded (snd (snd (post_tweet cfg api t1 t2 tweet st)))))\<rparr> \<and>
      length (snd (snd (post_tweet cfg api t1 t2 tweet st))) \<le> 1) \<and>
   (tweets \<noteq> [] \<longrightarrow>
      fst (snd (post_thread cfg api t1 t2 (Some tweets) st)) =
        (snd (checkRateLimit t1 t2 st))
          \<lparr>tweetCount := tweetCount (snd (checkRateLimit t1 t2 st)) +
             int (length (filter succeeded
               (snd (snd (post_thread cfg api t1 t2 (Some tweets) st)))))\<rparr>)"
proof -
  have item: "snd (thread_item_posted cfg tweetText tweetId threadResults st) =
      st\<lparr>tweetCount := tweetCount st + 1\<rparr>"
    by (simp add: thread_item_posted_def tweetCount_incr_def)
  let ?loop = "post_thread_loop cfg api k ts prevTweetId threadResults st"
  have run: "?loop = (fst ?loop, fst (snd ?loop), snd (snd ?loop))"
    by simp
  from post_thread_loop_calls [OF run] have loop_calls: "list_all succeeded (butlast (snd (snd ?loop)))"
    by (cases "fst ?loop") (auto simp: list_all_iff dest: in_set_butlastD)
  note loop_count = post_thread_loop_count [OF run]
  have single: "length (snd (snd (post_tweet cfg api t1 t2 tweet st))) \<le> 1"
    by (simp add: post_tweet_def split: prod.splits sum.splits)
  from item loop_calls loop_count single post_tweet_count post_thread_count show ?thesis
    by (simp only: post_tweet_resume_state) blast
qed

text \<open>
  A thread of three texts whose second call is rejected consumes one post; a single post
  whose call is rejected consumes none, one whose call resolves consumes one.
\<close>

theorem publish_consumes_on_success_only_witness:
  "fst (snd (post_thread sample_config (twitter_fails_at 1) 5 5
               (Some [ascii ''A'', ascii ''B'', ascii ''C'']) (limiter_init 0))) =
     \<lparr>tweetCount = 1, lastResetTime = 0\<rparr> \<and>
   fst (snd (post_tweet sample_config (twitter_fails_at 0) 5 5 (Some (ascii ''A''))
               \<lparr>tweetCount = 3, lastResetTime = 0\<rparr>)) =
     \<lparr>tweetCount = 3, lastResetTime = 0\<rparr> \<and>
   fst (snd (post_tweet sample_config twitter_ok 5 5 (Some (ascii ''A''))
               \<lparr>tweetCount = 3, lastResetTime = 0\<rparr>)) =
     \<lparr>tweetCount = 4, lastResetTime = 0\<rparr>"
  using publish_consumes_on_success_only [where cfg = sample_config
      and api = "twitter_fails_at 1" and ?t1.0 = 5 and ?t2.0 = 5 and st = "limiter_init 0"
      and tweets = "[ascii ''A'', ascii ''B'', ascii ''C'']"]
    publish_consumes_on_success_only [where cfg = sample_config and api = "twitter_fails_at 0"
      and tweet = "Some (ascii ''A'')" and ?t1.0 = 5 and ?t2.0 = 5
      and st = "\<lparr>tweetCount = 3, lastResetTime = 0\<rparr>"]
    publish_consumes_on_success_only [where cfg = sample_config and api = twitter_ok
      and tweet = "Some (ascii ''A'')" and ?t1.0 = 5 and ?t2.0 = 5
      and st = "\<lparr>tweetCount = 3, lastResetTime = 0\<rparr>"]
  by (simp add: post_thread_def post_thread_begin_def post_tweet_def post_tweet_begin_def
      post_tweet_resume_def checkRateLimit_def TWEET_LIMIT_def RESET_PERIOD_def limiter_init_def
      twitter_fails_at_def twitter_ok_def truthy_def tweetData_def thread_item_posted_def
      tweetCount_incr_def succeeded_def ascii_def Let_def)





text \<open>
  C4, as the code has it. In a thread-publish request with texts \<open>t1, ..., tn\<close> that the
  rate-limit check admits and in which every call to the posting API resolves with a
  non-empty identifier, exactly \<open>n\<close> calls are issued, one per text in the order of the
  texts; the first carries no reply reference and every later one carries the identifier
  returned by the call before it. The handler then responds with the \<open>n\<close> results.
\<close>

theorem post_thread_reply_chain:
  assumes "post_thread cfg api t1 t2 (Some tweets) st = (res, st', calls)"
    and "tweets \<noteq> []"
    and "allowed (fst (checkRateLimit t1 t2 st))"
    and "int (length tweets) \<le> remaining (fst (checkRateLimit t1 t2 st))"
    and "\<forall>c \<in> set calls. \<exists>tweetId. snd c = Inr (Some tweetId) \<and> tweetId \<noteq> []"
  shows "length calls = length tweets \<and>
     map (td_text \<circ> fst) calls = tweets \<and>
     in_reply_to_tweet_id (fst (calls ! 0)) = None \<and>
     (\<forall>i. Suc i < length tweets \<longrightarrow>
        (\<exists>tweetId. snd (calls ! i) = Inr (Some tweetId) \<and>
           in_reply_to_tweet_id (fst (calls ! Suc i)) = Some tweetId)) \<and>
     (\<exists>threadResults. length threadResults = length tweets \<and>
        res = Ok_thread threadResults (17 - tweetCount st')
                (lastResetTime st' + 24 * 60 * 60 * 1000))"
proof -
  obtain r st2 calls2 where loop:
    "post_thread_loop cfg api 0 tweets None [] (snd (checkRateLimit t1 t2 st)) = (r, st2, calls2)"
    using prod_cases3 by blast
  from post_thread_admitted [OF assms(2,3,4) loop] assms(1)
  have res: "res = (case r of
         Inl err \<Rightarrow> Server_error (ascii ''Failed to post thread'') (Some (error_details err))
       | Inr threadResults \<Rightarrow>
           Ok_thread threadResults (TWEET_LIMIT - tweetCount st2)
             (lastResetTime st2 + RESET_PERIOD))"
    and st': "st' = st2" and calls: "calls = calls2"
    by simp_all
  note facts = post_thread_loop_calls [OF loop, folded calls]
  note chain = post_thread_loop_replies [OF loop, folded calls]
  obtain threadResults where r: "r = Inr threadResults"
  proof (cases r)
    case (Inl err)
    with facts have "calls \<noteq> []" "snd (last calls) = Inl err"
      by simp_all
    with assms(5) show ?thesis
      by (metis Inl_Inr_False last_in_set)
  next
    case (Inr results)
    with that show ?thesis
      by simp
  qed
  with facts have len: "length calls = length tweets"
    and texts: "map (td_text \<circ> fst) calls = tweets"
    and results: "length threadResults = length tweets"
    by simp_all
  from len assms(2) chain have first: "in_reply_to_tweet_id (fst (calls ! 0)) = None"
    by (auto simp: tweetData_def truthy_def)
  have later: "\<exists>tweetId. snd (calls ! i) = Inr (Some tweetId) \<and>
           in_reply_to_tweet_id (fst (calls ! Suc i)) = Some tweetId"
    if i: "Suc i < length tweets" for i
  proof -
    from i len chain obtain v where v: "snd (calls ! i) = Inr v"
      "fst (calls ! Suc i) = tweetData (tweets ! Suc i) v"
      by auto
    from i len have "calls ! i \<in> set calls"
      by simp
    with assms(5) have "\<exists>tweetId. snd (calls ! i) = Inr (Some tweetId) \<and> tweetId \<noteq> []"
      by (rule bspec)
    with v(1) obtain tweetId where "v = Some tweetId" "tweetId \<noteq> []"
      by auto
    with v show ?thesis
      by (simp add: tweetData_def truthy_def)
  qed
  from res r st' results
  have "res = Ok_thread threadResults (17 - tweetCount st')
                (lastResetTime st' + 24 * 60 * 60 * 1000)"
    by (simp add: TWEET_LIMIT_def RESET_PERIOD_def)
  with len texts first later results show ?thesis
    by blast
qed

text \<open>
  A thread of three texts, each call resolving with an identifier: three calls in order,
  the second in reply to the first post and the third in reply to the second.
\<close>

theorem post_thread_reply_chain_witness:
  "map fst (snd (snd (post_thread sample_config twitter_ok 5 5
               (Some [ascii ''A'', ascii ''B'', ascii ''C'']) (limiter_init 0)))) =
     [\<lparr>td_text = ascii ''A'', in_reply_to_tweet_id = None\<rparr>,
      \<lparr>td_text = ascii ''B'', in_reply_to_tweet_id = Some (ascii ''id0'')\<rparr>,
      \<lparr>td_text = ascii ''C'', in_reply_to_tweet_id = Some (ascii ''id1'')\<rparr>] \<and>
   length (snd (snd (post_thread sample_config twitter_ok 5 5
               (Some [ascii ''A'', ascii ''B'', ascii ''C'']) (limiter_init 0)))) =
     length [ascii ''A'', ascii ''B'', ascii ''C'']"
proof -
  let ?tweets = "[ascii ''A'', ascii ''B'', ascii ''C'']"
  let ?run = "post_thread sample_config twitter_ok 5 5 (Some ?tweets) (limiter_init 0)"
  have run: "?run = (fst ?run, fst (snd ?run), snd (snd ?run))"
    by simp
  have nonempty: "?tweets \<noteq> []"
    by simp
  have check: "checkRateLimit 5 5 (limiter_init 0) =
      (\<lparr>allowed = True, remaining = 17\<rparr>, \<lparr>tweetCount = 0, lastResetTime = 0\<rparr>)"
    by (simp add: checkRateLimit_def RESET_PERIOD_def TWEET_LIMIT_def limiter_init_def)
  have allowed: "allowed (fst (checkRateLimit 5 5 (limiter_init 0)))"
    by (simp add: check)
  have enough: "int (length ?tweets) \<le> remaining (fst (checkRateLimit 5 5 (limiter_init 0)))"
    by (simp add: check)
  have calls: "snd (snd ?run) =
     [(\<lparr>td_text = ascii ''A'', in_reply_to_tweet_id = None\<rparr>, Inr (Some (ascii ''id0''))),
      (\<lparr>td_text = ascii ''B'', in_reply_to_tweet_id = Some (ascii ''id0'')\<rparr>,
       Inr (Some (ascii ''id1''))),
      (\<lparr>td_text = ascii ''C'', in_reply_to_tweet_id = Some (ascii ''id1'')\<rparr>,
       Inr (Some (ascii ''id2'')))]"
    by (simp add: post_thread_def post_thread_begin_def check twitter_ok_def truthy_def
        tweetData_def thread_item_posted_def dec.simps ascii_def)
  have ids: "\<forall>c \<in> set (snd (snd ?run)). \<exists>tweetId. snd c = Inr (Some tweetId) \<and> tweetId \<noteq> []"
    by (simp only: calls) (simp add: ascii_def)
  from post_thread_reply_chain [OF run nonempty allowed enough ids]
  have "length (snd (snd ?run)) = length ?tweets"
    by blast
  with calls show ?thesis
    by simp
qed

text \<open>
  A thread of two texts whose calls both resolve, with a body that has no identifier: the
  second call carries no reply reference, and the handler reports success.
\<close>

theorem post_thread_reply_chain_broken:
  "post_thread sample_config twitter_no_id 5 5 (Some [ascii ''A'', ascii ''B''])
     (limiter_init 0) =
     (Ok_thread
        [\<lparr>tr_tweetId = None, tr_tweetUrl = None, tr_text = ascii ''A''\<rparr>,
         \<lparr>tr_tweetId = None, tr_tweetUrl = None, tr_text = ascii ''B''\<rparr>]
        15 86400000,
      \<lparr>tweetCount = 2, lastResetTime = 0\<rparr>,
      [(\<lparr>td_text = ascii ''A'', in_reply_to_tweet_id = None\<rparr>, Inr None),
       (\<lparr>td_text = ascii ''B'', in_reply_to_tweet_id = None\<rparr>, Inr None)])"
  by (simp add: post_thread_def post_thread_begin_def checkRateLimit_def TWEET_LIMIT_def
      RESET_PERIOD_def limiter_init_def twitter_no_id_def truthy_def tweetData_def
      thread_item_posted_def tweetCount_incr_def tweet_url_def)


text \<open>
  C7. A publish request is to be rejected with 400, before any call to the posting API,
  when its text is missing or empty. POST /post-tweet does so (\<open>post_tweet_invalid\<close>), and
  POST /post-thread does so for a missing or empty array (\<open>post_thread_invalid\<close>); but it
  does not look at the texts inside the array: a thread whose only text is the empty
  string passes the validation, and the empty text is sent to the posting API and
  counted.
\<close>

theorem post_thread_publishes_empty_text:
  "post_thread sample_config twitter_ok 5 5 (Some [[]]) (limiter_init 0) =
     (Ok_thread
        [\<lparr>tr_tweetId = Some (ascii ''id0''),
          tr_tweetUrl = Some (ascii ''https://twitter.com/relay/status/id0''),
          tr_text = []\<rparr>]
        16 86400000,
      \<lparr>tweetCount = 1, lastResetTime = 0\<rparr>,
      [(\<lparr>td_text = [], in_reply_to_tweet_id = None\<rparr>, Inr (Some (ascii ''id0'')))])"
  by (simp add: post_thread_def post_thread_begin_def checkRateLimit_def TWEET_LIMIT_def
      RESET_PERIOD_def limiter_init_def twitter_ok_def truthy_def tweetData_def
      thread_item_posted_def tweetCount_incr_def tweet_url_def sample_config_def dec.simps
      ascii_def)


text \<open>
  C9, as the code has it. Whenever 17 posts (or more) are counted and no more than 24
  hours have passed since the window start, POST /post-tweet with a non-empty tweet
  responds 429 with the error "Rate limit exceeded", a fixed text as details and the
  reset time, the window start plus 24 hours; it makes no call and leaves the limiter as
  it is. The check has reported 0 remaining; the body has no field for it. The reset
  time is not before the time of the request, and it is that very time when exactly 24
  hours have passed.
\<close>

theorem post_tweet_limit_reached:
  assumes "truthy tweet" and "17 \<le> tweetCount st"
    and "t1 - lastResetTime st \<le> 24 * 60 * 60 * 1000"
  shows "post_tweet cfg api t1 t2 tweet st =
       (Too_many_requests (ascii ''Rate limit exceeded'')
          (ascii ''You have reached your limit of 17 tweets per 24 hours.'')
          (lastResetTime st + 24 * 60 * 60 * 1000), st, []) \<and>
     status_code (fst (post_tweet cfg api t1 t2 tweet st)) = 429 \<and>
     fst (checkRateLimit t1 t2 st) = \<lparr>allowed = False, remaining = 0\<rparr> \<and>
     t1 \<le> lastResetTime st + 24 * 60 * 60 * 1000"
proof -
  from assms(2,3) have check: "checkRateLimit t1 t2 st = (\<lparr>allowed = False, remaining = 0\<rparr>, st)"
    by (simp add: checkRateLimit_def TWEET_LIMIT_def RESET_PERIOD_def)
  then have "\<not> allowed (fst (checkRateLimit t1 t2 st))"
    by simp
  from post_tweet_rejected [OF assms(1) this] check assms(3) show ?thesis
    by (simp add: RESET_PERIOD_def)
qed

text \<open>
  With 17 posts counted in a window that started at time 0, a request at time 1000 is
  answered 429 with the reset time 86400000.
\<close>

theorem post_tweet_limit_reached_witness:
  "post_tweet sample_config twitter_ok 1000 1000 (Some (ascii ''x''))
     \<lparr>tweetCount = 17, lastResetTime = 0\<rparr> =
     (Too_many_requests (ascii ''Rate limit exceeded'')
        (ascii ''You have reached your limit of 17 tweets per 24 hours.'') 86400000,
      \<lparr>tweetCount = 17, lastResetTime = 0\<rparr>, [])"
proof -
  have tweet: "truthy (Some (ascii ''x''))"
    by (simp add: truthy_def ascii_def)
  from post_tweet_limit_reached [OF tweet, of "\<lparr>tweetCount = 17, lastResetTime = 0\<rparr>" 1000
      sample_config twitter_ok 1000]
  show ?thesis
    by simp
qed

text \<open>
  With 17 posts counted in a window that started at time 0, a request at time 86400000,
  exactly 24 hours later, is answered 429 with the reset time 86400000: the time of the
  request itself, which is not in the future.
\<close>

theorem post_tweet_reset_time_not_future:
  "post_tweet sample_config twitter_ok 86400000 86400000 (Some (ascii ''x''))
     \<lparr>tweetCount = 17, lastResetTime = 0\<rparr> =
     (Too_many_requests (ascii ''Rate limit exceeded'')
        (ascii ''You have reached your limit of 17 tweets per 24 hours.'') 86400000,
      \<lparr>tweetCount = 17, lastResetTime = 0\<rparr>, [])"
  by (simp add: post_tweet_def post_tweet_begin_def checkRateLimit_def TWEET_LIMIT_def
      RESET_PERIOD_def truthy_def ascii_def)


section \<open>The count and the ceiling\<close>

lemma checkRateLimit_inv:
  "limiter_inv st \<Longrightarrow> limiter_inv (snd (checkRateLimit t1 t2 st))"
  by (simp add: checkRateLimit_def limiter_inv_def)

lemma checkRateLimit_room:
  "allowed (fst (checkRateLimit t1 t2 st)) \<Longrightarrow>
   tweetCount (snd (checkRateLimit t1 t2 st)) + remaining (fst (checkRateLimit t1 t2 st)) = 17"
  by (simp add: checkRateLimit_def TWEET_LIMIT_def split: if_splits)

lemma checkRateLimit_remaining:
  "allowed (fst (checkRateLimit t1 t2 st)) \<Longrightarrow> 0 < remaining (fst (checkRateLimit t1 t2 st))"
  by (simp add: checkRateLimit_def TWEET_LIMIT_def split: if_splits)

lemma post_tweet_inv:
  assumes "limiter_inv st"
  shows "limiter_inv (fst (snd (post_tweet cfg api t1 t2 tweet st)))"
proof (cases "truthy tweet")
  case False
  with assms show ?thesis
    by (simp add: post_tweet_invalid)
next
  case tweet: True
  note inv = checkRateLimit_inv [OF assms, of t1 t2]
  show ?thesis
  proof (cases "allowed (fst (checkRateLimit t1 t2 st))")
    case False
    with inv show ?thesis
      by (simp add: post_tweet_rejected [OF tweet])
  next
    case True
    from checkRateLimit_room [OF True] checkRateLimit_remaining [OF True] inv show ?thesis
      by (cases "api 0 \<lparr>td_text = the tweet, in_reply_to_tweet_id = None\<rparr>")
        (simp_all add: post_tweet_admitted [OF tweet True] post_tweet_resume_state
          limiter_inv_def)
  qed
qed

lemma post_thread_inv:
  assumes "limiter_inv st"
  shows "limiter_inv (fst (snd (post_thread cfg api t1 t2 tweets st)))"
proof (cases "snd (snd (post_thread cfg api t1 t2 tweets st)) = []")
  case True
  note inv = checkRateLimit_inv [OF assms, of t1 t2]
  show ?thesis
  proof (cases tweets)
    case None
    with assms show ?thesis
      by (simp add: post_thread_invalid)
  next
    case (Some ts)
    show ?thesis
    proof (cases "ts = []")
      case empty: True
      with assms Some show ?thesis
        by (simp add: post_thread_invalid)
    next
      case False
      from post_thread_count [OF False, of cfg api t1 t2 st] True Some inv show ?thesis
        by simp
    qed
  qed
next
  case False
  from post_thread_calls_admitted [OF False] obtain ts where ts: "tweets = Some ts" "ts \<noteq> []"
    and ok: "allowed (fst (checkRateLimit t1 t2 st))"
      "int (length ts) \<le> remaining (fst (checkRateLimit t1 t2 st))"
    by blast
  obtain r st2 calls where loop:
    "post_thread_loop cfg api 0 ts None [] (snd (checkRateLimit t1 t2 st)) = (r, st2, calls)"
    using prod_cases3 by blast
  from post_thread_loop_calls [OF loop] have "length calls \<le> length ts"
    by simp
  moreover have "length (filter succeeded calls) \<le> length calls"
    by simp
  ultimately have "int (length (filter succeeded calls)) \<le> int (length ts)"
    by linarith
  with post_thread_loop_count [OF loop] checkRateLimit_room [OF ok(1)] ok(2)
    checkRateLimit_inv [OF assms, of t1 t2]
  have "limiter_inv st2"
    by (simp add: limiter_inv_def)
  with post_thread_admitted [OF ts(2) ok loop] ts(1) show ?thesis
    by simp
qed

lemma handle_inv: "limiter_inv st \<Longrightarrow> limiter_inv (handle cfg st req)"
  by (cases req) (simp_all add: post_tweet_inv post_thread_inv get_rate_limit_def split_beta
      checkRateLimit_inv)

lemma handle_all_inv: "limiter_inv st \<Longrightarrow> limiter_inv (foldl (handle cfg) st reqs)"
  by (induction reqs arbitrary: st) (simp_all add: handle_inv)


section \<open>Handlers that run alone\<close>

lemma server_thread_resumes:
  "post_thread_loop cfg api k (t # rest) prev results st = (r, st', calls) \<Longrightarrow>
   server_run cfg
     \<lparr>the_limiter = st, suspended_handlers = [Awaiting_thread t rest prev results]\<rparr>
     (map (\<lambda>c. Reply_arrives 0 (snd c)) calls) =
   \<lparr>the_limiter = st', suspended_handlers = []\<rparr>"
proof (induction rest arbitrary: t k prev results st r st' calls)
  case Nil
  then show ?case
    by (cases "api k (tweetData t prev)")
      (auto simp: server_run_def split_beta)
next
  case (Cons t2 ts)
  show ?case
  proof (cases "api k (tweetData t prev)")
    case (Inl err)
    with Cons.prems show ?thesis
      by (auto simp: server_run_def)
  next
    case (Inr tweetId)
    obtain r2 st2 calls2 where rest:
      "post_thread_loop cfg api (Suc k) (t2 # ts) tweetId
         (fst (thread_item_posted cfg t tweetId results st))
         (snd (thread_item_posted cfg t tweetId results st)) = (r2, st2, calls2)"
      using prod_cases3 by blast
    from Cons.prems Inr rest
    have calls: "calls = (tweetData t prev, Inr tweetId) # calls2" and st': "st' = st2"
      by (simp_all add: split_beta)
    from Cons.IH [OF rest] show ?thesis
      by (simp add: calls st' server_run_def split_beta)
  qed
qed

lemma server_post_thread_alone:
  assumes "suspended_handlers s = []"
  shows "server_run cfg s
     (Post_thread_arrives t1 t2 tweets #
      map (\<lambda>c. Reply_arrives 0 (snd c))
        (snd (snd (post_thread cfg api t1 t2 tweets (the_limiter s))))) =
   \<lparr>the_limiter = handle cfg (the_limiter s) (Post_thread api t1 t2 tweets),
    suspended_handlers = []\<rparr>"
proof (cases "post_thread_begin t1 t2 tweets (the_limiter s)")
  case (Pair a st1)
  show ?thesis
  proof (cases a)
    case (Inl res)
    with Pair assms show ?thesis
      by (cases s) (simp add: server_run_def post_thread_def)
  next
    case (Inr ts)
    show ?thesis
    proof (cases ts)
      case Nil
      with Pair Inr assms show ?thesis
        by (cases s) (simp add: server_run_def post_thread_def)
    next
      case (Cons t rest)
      obtain r st2 calls where loop:
        "post_thread_loop cfg api 0 (t # rest) None [] st1 = (r, st2, calls)"
        using prod_cases3 by blast
      from Pair Inr Cons loop
      have run: "snd (post_thread cfg api t1 t2 tweets (the_limiter s)) = (st2, calls)"
        by (cases r) (simp_all add: post_thread_def del: post_thread_loop.simps)
      from Pair Inr Cons assms
      have step: "server_step cfg s (Post_thread_arrives t1 t2 tweets) =
          \<lparr>the_limiter = st1, suspended_handlers = [Awaiting_thread t rest None []]\<rparr>"
        by (cases s) simp
      from server_thread_resumes [OF loop] show ?thesis
        by (simp add: server_run_def step run del: post_thread_loop.simps server_step.simps)
    qed
  qed
qed

lemma server_post_tweet_alone:
  assumes "suspended_handlers s = []"
  shows "server_run cfg s
     (Post_tweet_arrives t1 t2 tweet #
      map (\<lambda>c. Reply_arrives 0 (snd c))
        (snd (snd (post_tweet cfg api t1 t2 tweet (the_limiter s))))) =
   \<lparr>the_limiter = handle cfg (the_limiter s) (Post_tweet api t1 t2 tweet),
    suspended_handlers = []\<rparr>"
proof (cases "post_tweet_begin t1 t2 tweet (the_limiter s)")
  case (Pair a st1)
  with assms show ?thesis
    by (cases s; cases a) (simp_all add: server_run_def post_tweet_def split_beta)
qed

lemma server_rate_limit_alone:
  assumes "suspended_handlers s = []"
  shows "server_run cfg s [Rate_limit_arrives t1 t2] =
   \<lparr>the_limiter = handle cfg (the_limiter s) (Get_rate_limit t1 t2),
    suspended_handlers = []\<rparr>"
  using assms by (cases s) (simp add: server_run_def)

lemma server_run_append:
  "server_run cfg s (es @ fs) = server_run cfg (server_run cfg s es) fs"
  by (simp add: server_run_def)

lemma server_events_of:
  assumes "suspended_handlers s = []"
  shows "server_run cfg s (events_of cfg (the_limiter s) req) =
     \<lparr>the_limiter = handle cfg (the_limiter s) req, suspended_handlers = []\<rparr>"
proof (cases req)
  case (Post_tweet api t1 t2 tweet)
  with server_post_tweet_alone [OF assms] show ?thesis
    by simp
next
  case (Post_thread api t1 t2 tweets)
  with server_post_thread_alone [OF assms] show ?thesis
    by simp
next
  case (Get_rate_limit t1 t2)
  with server_rate_limit_alone [OF assms] show ?thesis
    by simp
qed (use assms in \<open>cases s; simp add: server_run_def\<close>)+

lemma server_run_sequential:
  "suspended_handlers s = [] \<Longrightarrow>
   server_run cfg s (sequential_events cfg (the_limiter s) reqs) =
     \<lparr>the_limiter = foldl (handle cfg) (the_limiter s) reqs, suspended_handlers = []\<rparr>"
proof (induction reqs arbitrary: s)
  case Nil
  then show ?case
    by (cases s) (simp add: server_run_def)
next
  case (Cons req reqs)
  let ?s = "\<lparr>the_limiter = handle cfg (the_limiter s) req, suspended_handlers = []\<rparr>"
  have "suspended_handlers ?s = []"
    by simp
  from Cons.IH [OF this] show ?case
    by (simp add: server_run_append server_events_of [OF Cons.prems])
qed


text \<open>
  C10, as the code has it. When the requests are handled one after the other, each
  handler running from its start to its response before the next one starts, the count
  satisfies \<open>0 \<le> count \<le> 17\<close> at the start of the process and after every request,
  whatever the requests, the clock readings and the upstream behaviour: the single-post
  handler increments only after a check that found the count below 17, and the thread
  handler increments at most \<open>n\<close> times after a check that found \<open>17 - count \<ge> n\<close>.
  The server that receives the events of such requests, each reply arriving before the
  next request, ends with the same limiter.
\<close>

theorem count_within_limit_sequential:
  "limiter_inv (limiter_init t0) \<and>
   (limiter_inv st \<longrightarrow> limiter_inv (handle cfg st req)) \<and>
   limiter_inv (foldl (handle cfg) (limiter_init t0) reqs) \<and>
   the_limiter (server_run cfg (server_init t0)
      (sequential_events cfg (limiter_init t0) reqs)) =
     foldl (handle cfg) (limiter_init t0) reqs \<and>
   0 \<le> tweetCount (the_limiter (server_run cfg (server_init t0)
      (sequential_events cfg (limiter_init t0) reqs))) \<and>
   tweetCount (the_limiter (server_run cfg (server_init t0)
      (sequential_events cfg (limiter_init t0) reqs))) \<le> 17"
proof -
  have init: "limiter_inv (limiter_init t0)"
    by (simp add: limiter_inv_def limiter_init_def)
  from handle_all_inv [OF init]
  have all: "limiter_inv (foldl (handle cfg) (limiter_init t0) reqs)" .
  have "suspended_handlers (server_init t0) = []"
    by (simp add: server_init_def)
  from server_run_sequential [OF this, of cfg reqs]
  have server: "the_limiter (server_run cfg (server_init t0)
      (sequential_events cfg (limiter_init t0) reqs)) =
     foldl (handle cfg) (limiter_init t0) reqs"
    by (simp add: server_init_def)
  from all have "0 \<le> tweetCount (foldl (handle cfg) (limiter_init t0) reqs) \<and>
      tweetCount (foldl (handle cfg) (limiter_init t0) reqs) \<le> 17"
    by (simp add: limiter_inv_def)
  with init all handle_inv server show ?thesis
    by (simp only:) blast
qed

text \<open>
  With 16 posts counted, two single posts and a thread of two texts, handled one after
  the other with every call resolving, leave the count at 17: the second single post and
  the thread are refused.
\<close>

theorem count_within_limit_sequential_witness:
  "handle sample_config \<lparr>tweetCount = 16, lastResetTime = 0\<rparr>
     (Post_tweet twitter_ok 5 5 (Some (ascii ''A''))) = \<lparr>tweetCount = 17, lastResetTime = 0\<rparr> \<and>
   limiter_inv (handle sample_config \<lparr>tweetCount = 16, lastResetTime = 0\<rparr>
     (Post_tweet twitter_ok 5 5 (Some (ascii ''A'')))) \<and>
   foldl (handle sample_config) \<lparr>tweetCount = 16, lastResetTime = 0\<rparr>
     [Post_tweet twitter_ok 5 5 (Some (ascii ''A'')),
      Post_tweet twitter_ok 6 6 (Some (ascii ''B'')),
      Post_thread twitter_ok 7 7 (Some [ascii ''C'', ascii ''D''])] =
     \<lparr>tweetCount = 17, lastResetTime = 0\<rparr>"
proof -
  have inv: "limiter_inv \<lparr>tweetCount = 16, lastResetTime = 0\<rparr>"
    by (simp add: limiter_inv_def)
  from count_within_limit_sequential [of 0 "\<lparr>tweetCount = 16, lastResetTime = 0\<rparr>"
      sample_config "Post_tweet twitter_ok 5 5 (Some (ascii ''A''))" "[]"] inv
  have "limiter_inv (handle sample_config \<lparr>tweetCount = 16, lastResetTime = 0\<rparr>
     (Post_tweet twitter_ok 5 5 (Some (ascii ''A''))))"
    by blast
  then show ?thesis
    by (simp add: post_tweet_def post_tweet_begin_def post_tweet_resume_def post_thread_def
        post_thread_begin_def checkRateLimit_def TWEET_LIMIT_def RESET_PERIOD_def twitter_ok_def
        truthy_def tweetCount_incr_def ascii_def Let_def)
qed

text \<open>
  From the start of the process: a thread of 17 texts is admitted and suspended at its
  first call; a single post arrives meanwhile and is admitted too, the count being still
  0; the 18 calls then resolve one by one. The count ends at 18.
\<close>

theorem count_exceeds_limit_overlapping:
  "tweetCount (the_limiter (server_run sample_config (server_init 0)
     ([Post_thread_arrives 1 1 (Some (replicate 17 (ascii ''a''))),
       Post_tweet_arrives 2 2 (Some (ascii ''b''))] @
      replicate 18 (Reply_arrives 0 (Inr (Some (ascii ''7''))))))) = 18"
  by (simp add: server_run_def server_init_def limiter_init_def post_thread_begin_def
      post_tweet_begin_def post_tweet_resume_def checkRateLimit_def TWEET_LIMIT_def
      RESET_PERIOD_def truthy_def thread_item_posted_def tweetCount_incr_def ascii_def
      Let_def numeral_eq_Suc)


end
